theory Spec2Isabelle
  imports Main "HOL-Library.Sublist"
begin

section \<open>Values, errors and the collaborators outside the module\<close>

text \<open>
  Python values that can sit in the environment layer, in the defaults or come back from
  a type descriptor. Raw data only ever holds strings.
\<close>

datatype pyval =
    PNone
  | PStr string
  | PInt int
  | PBool bool
  | PList "pyval list"
  | PDict "(string \<times> pyval) list"

text \<open>The exceptions the module raises or lets through.\<close>

datatype error =
    ConfigFormatError
  | FilterError
  | ParseError
  | TypeValueError
  | RuntimeError
  | IndexError
  | AttributeError
  | TypeError
  | IOError
  | OtherError

abbreviation BS :: char where "BS \<equiv> CHR 0x5C"
abbreviation NL :: char where "NL \<equiv> CHR 0x0A"
abbreviation CR :: char where "CR \<equiv> CHR 0x0D"
abbreviation TAB :: char where "TAB \<equiv> CHR 0x09"

text \<open>
  A type descriptor of \<^verbatim>\<open>grr.lib.type_info\<close>: the module only calls its
  \<^verbatim>\<open>Validate\<close> (which raises \<^verbatim>\<open>TypeValueError\<close> or returns), \<^verbatim>\<open>ToString\<close> and
  \<^verbatim>\<open>FromString\<close>. The library is not part of this module, so a descriptor is a record
  of these three functions.
\<close>

record descriptor =
  Validate :: "pyval \<Rightarrow> bool"
  ToString :: "pyval \<Rightarrow> error + string"
  FromString :: "string \<Rightarrow> error + pyval"

text \<open>
  What the filters read from outside the process: the file system (the outcome of
  opening a path and reading it whole), \<^verbatim>\<open>os.environ\<close>, the parsed flags, the base64
  codec, and the descriptor that \<^verbatim>\<open>type_info.String(...)\<close> builds.
\<close>

record world =
  fs :: "string \<Rightarrow> error + string"
  os_environ :: "string \<rightharpoonup> string"
  FLAGS :: "string \<rightharpoonup> pyval"
  base64_decode :: "string \<Rightarrow> error + string"
  ti_String :: descriptor

text \<open>\<^verbatim>\<open>found or type_info.String(...)\<close>: a descriptor object is always true.\<close>

definition or_String :: "world \<Rightarrow> descriptor option \<Rightarrow> descriptor" where
  "or_String w found = (case found of None \<Rightarrow> ti_String w | Some t \<Rightarrow> t)"

section \<open>Filters\<close>

definition ascii_lowercase :: string where
  "ascii_lowercase = ''abcdefghijklmnopqrstuvwxyz''"

definition ascii_uppercase :: string where
  "ascii_uppercase = ''ABCDEFGHIJKLMNOPQRSTUVWXYZ''"

definition lower_char :: "char \<Rightarrow> char" where
  "lower_char c = (case map_of (zip ascii_uppercase ascii_lowercase) c of
     None \<Rightarrow> c | Some d \<Rightarrow> d)"

definition upper_char :: "char \<Rightarrow> char" where
  "upper_char c = (case map_of (zip ascii_lowercase ascii_uppercase) c of
     None \<Rightarrow> c | Some d \<Rightarrow> d)"

definition lower :: "string \<Rightarrow> string" where
  "lower s = map lower_char s"

definition upper :: "string \<Rightarrow> string" where
  "upper s = map upper_char s"

text \<open>
  \<^verbatim>\<open>Filename.Filter\<close>: \<^verbatim>\<open>open(data, "rb").read(1024000)\<close>, an \<^verbatim>\<open>IOError\<close> becoming a
  \<^verbatim>\<open>FilterError\<close>; any other exception passes through.
\<close>

definition Filename_Filter :: "world \<Rightarrow> string \<Rightarrow> error + string" where
  "Filename_Filter w data =
     (case fs w data of
        Inl e \<Rightarrow> if e = IOError then Inl FilterError else Inl e
      | Inr content \<Rightarrow> Inr (take 1024000 content))"

section \<open>The string interpolator\<close>

subsection \<open>The regular expressions of the token table\<close>

text \<open>
  A match at the start of the buffer: the matched text (group 0), group 1 (empty when the
  expression has none) and the rest of the buffer.
\<close>

type_synonym rmatch = "string \<times> string \<times> string"

definition is_letter :: "char \<Rightarrow> bool" where
  "is_letter c = (c \<in> set (ascii_lowercase @ ascii_uppercase))"

text \<open>\<^verbatim>\<open>\\[^}]\<close>\<close>

definition re_literal_escape :: "string \<Rightarrow> rmatch option" where
  "re_literal_escape buf =
     (case buf of
        b # c # r \<Rightarrow> if b = BS \<and> c \<noteq> CHR ''}'' then Some ([b, c], [], r) else None
      | _ \<Rightarrow> None)"

text \<open>\<^verbatim>\<open>\\(.)\<close> (the dot matches a newline too: the lexer compiles with DOTALL)\<close>

definition re_escape :: "string \<Rightarrow> rmatch option" where
  "re_escape buf =
     (case buf of
        b # c # r \<Rightarrow> if b = BS then Some ([b, c], [c], r) else None
      | _ \<Rightarrow> None)"

text \<open>A fixed text: \<^verbatim>\<open>\}\<close>, \<^verbatim>\<open>\%\{\<close>, \<^verbatim>\<open>\%\(\<close>, \<^verbatim>\<open>\)\<close>\<close>

definition re_text :: "string \<Rightarrow> string \<Rightarrow> rmatch option" where
  "re_text p buf = (if prefix p buf then Some (p, [], drop (length p) buf) else None)"

text \<open>A greedy character class: \<^verbatim>\<open>[^}]+\<close>, \<^verbatim>\<open>[^()%{}|\\]+\<close>\<close>

definition re_plus :: "(char \<Rightarrow> bool) \<Rightarrow> string \<Rightarrow> rmatch option" where
  "re_plus P buf =
     (if takeWhile P buf = [] then None
      else Some (takeWhile P buf, [], dropWhile P buf))"

text \<open>The two classes of the table: \<^verbatim>\<open>[^}]\<close> and \<^verbatim>\<open>[^()%{}|\\]\<close>.\<close>

definition not_close_brace :: "char \<Rightarrow> bool" where
  "not_close_brace c = (c \<noteq> CHR ''}'')"

definition plain_char :: "char \<Rightarrow> bool" where
  "plain_char c = (c \<notin> set (''()%{}|'' @ [BS]))"

text \<open>\<^verbatim>\<open>\|([a-zA-Z]+)\)\<close>\<close>

definition re_filter :: "string \<Rightarrow> rmatch option" where
  "re_filter buf =
     (case buf of
        [] \<Rightarrow> None
      | c # r \<Rightarrow>
          if c \<noteq> CHR ''|'' then None
          else (case dropWhile is_letter r of
                  [] \<Rightarrow> None
                | d # r' \<Rightarrow>
                    if takeWhile is_letter r \<noteq> [] \<and> d = CHR '')''
                    then Some (c # takeWhile is_letter r @ [d], takeWhile is_letter r, r')
                    else None))"

text \<open>\<^verbatim>\<open>.\<close>\<close>

definition re_dot :: "string \<Rightarrow> rmatch option" where
  "re_dot buf = (case buf of [] \<Rightarrow> None | c # r \<Rightarrow> Some ([c], [], r))"

text \<open>
  \<^verbatim>\<open>^$\<close>: the empty match at the start of an empty buffer and, the lexer compiling with
  MULTILINE, also in front of a newline.
\<close>

definition re_empty :: "string \<Rightarrow> rmatch option" where
  "re_empty buf = (if buf = [] \<or> hd buf = NL then Some ([], [], buf) else None)"

subsection \<open>The lexer and its handlers\<close>

datatype lex_state = INITIAL | Literal

text \<open>
  The accumulator stack is kept with its top first: \<^verbatim>\<open>self.stack[-1]\<close> is the head of
  \<open>stack\<close>, and \<^verbatim>\<open>self.stack[0]\<close> of a one-element stack is that same element.
\<close>

record lexer =
  buffer :: string
  state :: lex_state
  state_stack :: "lex_state list"
  stack :: "string list"
  default_section :: "string option"

text \<open>
  What the interpolator calls on the configuration object: \<^verbatim>\<open>config[name]\<close>,
  \<^verbatim>\<open>config.FindTypeInfo(name)\<close> and, from the \<^verbatim>\<open>expand\<close> filter,
  \<^verbatim>\<open>CONFIG.InterpolateValue(data)\<close>. \<open>None\<close> is a call that does not return.
\<close>

record callbacks =
  config_getitem :: "string \<Rightarrow> (error + pyval) option"
  config_FindTypeInfo :: "string \<Rightarrow> (error + descriptor option) option"
  config_InterpolateValue :: "string \<Rightarrow> (error + pyval) option"

record token =
  state_regex :: "lex_state option"
  regex :: "string \<Rightarrow> rmatch option"
  actions :: "string list"
  next_state :: "lex_state option"

definition Token :: "lex_state option \<Rightarrow> (string \<Rightarrow> rmatch option) \<Rightarrow> string list \<Rightarrow>
    lex_state option \<Rightarrow> token" where
  "Token sr re acts ns = \<lparr>state_regex = sr, regex = re, actions = acts, next_state = ns\<rparr>"

definition tokens :: "token list" where
  "tokens =
    [Token (Some Literal) re_literal_escape [''AppendArg''] None,
     Token None re_escape [''Escape''] None,
     Token (Some Literal) (re_text ''}'') [''EndLiteralExpression'', ''PopState''] None,
     Token (Some Literal) (re_plus not_close_brace) [''AppendArg''] None,
     Token None (re_text ''%{'') [''StartExpression'', ''PushState''] (Some Literal),
     Token None (re_text ''%('') [''StartExpression''] None,
     Token None re_filter [''Filter''] None,
     Token None (re_text '')'') [''ExpandArg''] None,
     Token None (re_plus plain_char) [''AppendArg''] None,
     Token None re_dot [''AppendArg''] None,
     Token None re_empty [] None]"

definition STRING_ESCAPES :: "string \<rightharpoonup> string" where
  "STRING_ESCAPES = map_of
     [([BS, BS], [BS]),
      ([BS, CHR ''n''], [NL]),
      ([BS, CHR ''t''], [TAB]),
      ([BS, CHR ''r''], [CR])]"

text \<open>\<^verbatim>\<open>self.stack[-1] += s\<close>\<close>

definition stack_add :: "string \<Rightarrow> lexer \<Rightarrow> error + lexer" where
  "stack_add s lx =
     (case stack lx of
        [] \<Rightarrow> Inl IndexError
      | cur # below \<Rightarrow> Inr (lx\<lparr>stack := (cur @ s) # below\<rparr>))"

definition Escape :: "string \<Rightarrow> lexer \<Rightarrow> error + lexer" where
  "Escape string lx =
     stack_add (case STRING_ESCAPES string of None \<Rightarrow> tl string | Some t \<Rightarrow> t) lx"

definition StartExpression :: "lexer \<Rightarrow> error + lexer" where
  "StartExpression lx = Inr (lx\<lparr>stack := [] # stack lx\<rparr>)"

definition EndLiteralExpression :: "lexer \<Rightarrow> error + lexer" where
  "EndLiteralExpression lx =
     (if length (stack lx) \<le> 1 then Inl ParseError
      else stack_add (hd (stack lx)) (lx\<lparr>stack := tl (stack lx)\<rparr>))"

definition AppendArg :: "string \<Rightarrow> lexer \<Rightarrow> error + lexer" where
  "AppendArg string lx = stack_add string lx"

text \<open>
  The filter classes by their \<^verbatim>\<open>name\<close> attribute; an unknown name is \<open>None\<close>. The result
  of a filter is a Python value: \<^verbatim>\<open>flags\<close> and \<^verbatim>\<open>expand\<close> can return something that is
  not a string.
\<close>

definition classes_by_name ::
    "world \<Rightarrow> callbacks \<Rightarrow> string \<Rightarrow> (string \<Rightarrow> (error + pyval) option) option" where
  "classes_by_name w cb name =
     (if name = ''identity'' \<or> name = ''literal'' then Some (\<lambda>data. Some (Inr (PStr data)))
      else if name = ''lower'' then Some (\<lambda>data. Some (Inr (PStr (lower data))))
      else if name = ''upper'' then Some (\<lambda>data. Some (Inr (PStr (upper data))))
      else if name = ''file'' then Some (\<lambda>data. Some (map_sum id PStr (Filename_Filter w data)))
      else if name = ''base64'' then Some (\<lambda>data. Some (map_sum id PStr (base64_decode w data)))
      else if name = ''env'' then
        Some (\<lambda>data. Some (Inr (PStr (case os_environ w (upper data) of
                                          None \<Rightarrow> [] | Some v \<Rightarrow> v))))
      else if name = ''expand'' then Some (\<lambda>data. config_InterpolateValue cb data)
      else if name = ''flags'' then
        Some (\<lambda>data. case FLAGS w data of
                        None \<Rightarrow> Some (Inl AttributeError) | Some v \<Rightarrow> Some (Inr v))
      else None)"

text \<open>
  \<^verbatim>\<open>Filter\<close>: group 1 of the match is \<^verbatim>\<open>[a-zA-Z]+\<close>, so splitting it at commas gives
  the one name. The accumulator is popped first, the filter runs, and only then is the
  new top of the stack read.
\<close>

definition Filter :: "world \<Rightarrow> callbacks \<Rightarrow> rmatch \<Rightarrow> lexer \<Rightarrow> (error + lexer) option" where
  "Filter w cb match lx =
     (case stack lx of
        [] \<Rightarrow> Some (Inl IndexError)
      | arg # below \<Rightarrow>
          (case classes_by_name w cb (fst (snd match)) of
             None \<Rightarrow> Some (Inl RuntimeError)
           | Some filter_object \<Rightarrow>
               (case filter_object arg of
                  None \<Rightarrow> None
                | Some (Inl e) \<Rightarrow> Some (Inl e)
                | Some (Inr arg') \<Rightarrow>
                    (case below of
                       [] \<Rightarrow> Some (Inl IndexError)
                     | cur # below' \<Rightarrow>
                         (case arg' of
                            PStr s \<Rightarrow> Some (Inr (lx\<lparr>stack := (cur @ s) # below'\<rparr>))
                          | _ \<Rightarrow> Some (Inl TypeError))))))"

text \<open>\<^verbatim>\<open>"%s.%s" % (self.default_section, parameter_name)\<close>\<close>

definition qualify :: "string option \<Rightarrow> string \<Rightarrow> string" where
  "qualify ds parameter_name =
     (case ds of None \<Rightarrow> ''None'' | Some s \<Rightarrow> s) @ ''.'' @ parameter_name"

definition ExpandArg :: "world \<Rightarrow> callbacks \<Rightarrow> lexer \<Rightarrow> (error + lexer) option" where
  "ExpandArg w cb lx =
     (if length (stack lx) \<le> 1 then Some (Inl ParseError)
      else
        (let popped = hd (stack lx);
             lx1 = lx\<lparr>stack := tl (stack lx)\<rparr>;
             parameter_name =
               (if CHR ''.'' \<notin> set popped then qualify (default_section lx) popped else popped)
         in (case config_getitem cb parameter_name of
               None \<Rightarrow> None
             | Some (Inl e) \<Rightarrow> Some (Inl e)
             | Some (Inr v) \<Rightarrow>
                 (let final_value = (if v = PNone then PStr [] else v)
                  in (case config_FindTypeInfo cb parameter_name of
                        None \<Rightarrow> None
                      | Some (Inl e) \<Rightarrow> Some (Inl e)
                      | Some (Inr found) \<Rightarrow>
                          (let type_info_obj = or_String w found
                           in (case ToString type_info_obj final_value of
                                 Inl e \<Rightarrow> Some (Inl e)
                               | Inr s \<Rightarrow> Some (stack_add s lx1))))))))"

subsection \<open>The lexer's driver\<close>

text \<open>
  Modelled from the spec: the base class \<^verbatim>\<open>grr.lib.lexer.Lexer\<close> (\<^verbatim>\<open>NextToken\<close>,
  \<^verbatim>\<open>Close\<close>, \<^verbatim>\<open>PushState\<close>, \<^verbatim>\<open>PopState\<close>) is not in the module. The token table is
  written for it: the tokens are tried in the order of the table, a token applies when
  its state expression matches the current state (no expression: every state) and its
  regular expression matches at the start of the buffer; the first such token consumes
  its match, its actions run in order as methods of the lexer (an unknown name is the
  no-op default), an action's non-empty return value replaces the token's next state,
  and a \<^verbatim>\<open>ParseError\<close> raised by an action goes to \<^verbatim>\<open>self.Error\<close>. When no token applies
  the lexer reports through \<^verbatim>\<open>self.Error\<close> that it is stuck. \<^verbatim>\<open>Close\<close> takes tokens until
  the buffer is empty. The expressions are compiled so that the dot matches every
  character and \<^verbatim>\<open>^\<close>, \<^verbatim>\<open>$\<close> match at line ends. \<^verbatim>\<open>PushState\<close> saves the current
  state on the state stack and \<^verbatim>\<open>PopState\<close> restores it.
\<close>

definition PushState :: "lexer \<Rightarrow> error + lexer" where
  "PushState lx = Inr (lx\<lparr>state_stack := state lx # state_stack lx\<rparr>)"

text \<open>
  \<^verbatim>\<open>PopState\<close> returns the state it restored, which the lexer takes as the next state.
  On an empty state stack it calls \<^verbatim>\<open>self.Error\<close>, which the interpolator overrides to
  raise \<^verbatim>\<open>ConfigFormatError\<close>.
\<close>

definition PopState :: "lexer \<Rightarrow> error + lexer \<times> lex_state option" where
  "PopState lx =
     (case state_stack lx of
        [] \<Rightarrow> Inl ConfigFormatError
      | s # ss \<Rightarrow> Inr (lx\<lparr>state := s, state_stack := ss\<rparr>, Some s))"

fun first_match :: "token list \<Rightarrow> lex_state \<Rightarrow> string \<Rightarrow> (token \<times> rmatch) option" where
  "first_match [] st buf = None"
| "first_match (t # ts) st buf =
     (if state_regex t \<noteq> None \<and> state_regex t \<noteq> Some st then first_match ts st buf
      else (case regex t buf of
              None \<Rightarrow> first_match ts st buf
            | Some m \<Rightarrow> Some (t, m)))"

definition no_state :: "error + lexer \<Rightarrow> (error + lexer \<times> lex_state option) option" where
  "no_state r = Some (map_sum id (\<lambda>lx. (lx, None)) r)"

definition run_action ::
    "world \<Rightarrow> callbacks \<Rightarrow> string \<Rightarrow> rmatch \<Rightarrow> lexer \<Rightarrow>
     (error + lexer \<times> lex_state option) option" where
  "run_action w cb action m lx =
     (if action = ''AppendArg'' then no_state (AppendArg (fst m) lx)
      else if action = ''Escape'' then no_state (Escape (fst m) lx)
      else if action = ''EndLiteralExpression'' then no_state (EndLiteralExpression lx)
      else if action = ''PopState'' then Some (PopState lx)
      else if action = ''StartExpression'' then no_state (StartExpression lx)
      else if action = ''PushState'' then no_state (PushState lx)
      else if action = ''Filter'' then
        (case Filter w cb m lx of None \<Rightarrow> None | Some r \<Rightarrow> no_state r)
      else if action = ''ExpandArg'' then
        (case ExpandArg w cb lx of None \<Rightarrow> None | Some r \<Rightarrow> no_state r)
      else Some (Inr (lx, None)))"

fun run_actions ::
    "world \<Rightarrow> callbacks \<Rightarrow> string list \<Rightarrow> rmatch \<Rightarrow> lex_state option \<Rightarrow> lexer \<Rightarrow>
     (error + lexer \<times> lex_state option) option" where
  "run_actions w cb [] m ns lx = Some (Inr (lx, ns))"
| "run_actions w cb (a # as) m ns lx =
     (case run_action w cb a m lx of
        None \<Rightarrow> None
      | Some (Inl e) \<Rightarrow> Some (Inl (if e = ParseError then ConfigFormatError else e))
      | Some (Inr (lx', possible_next_state)) \<Rightarrow>
          run_actions w cb as m
            (case possible_next_state of None \<Rightarrow> ns | Some s \<Rightarrow> Some s) lx')"

definition NextToken :: "world \<Rightarrow> callbacks \<Rightarrow> lexer \<Rightarrow> (error + lexer) option" where
  "NextToken w cb lx =
     (case first_match tokens (state lx) (buffer lx) of
        None \<Rightarrow> Some (Inl ConfigFormatError)
      | Some (t, m) \<Rightarrow>
          (case run_actions w cb (actions t) m (next_state t) (lx\<lparr>buffer := snd (snd m)\<rparr>) of
             None \<Rightarrow> None
           | Some (Inl e) \<Rightarrow> Some (Inl e)
           | Some (Inr (lx', ns)) \<Rightarrow>
               Some (Inr (case ns of None \<Rightarrow> lx' | Some s \<Rightarrow> lx'\<lparr>state := s\<rparr>))))"

text \<open>Every token but the last consumes at least one character, so \<^verbatim>\<open>Close\<close> ends.\<close>

lemma re_literal_escape_rest:
  "re_literal_escape buf = Some m \<Longrightarrow> length (snd (snd m)) < length buf"
  by (auto simp: re_literal_escape_def split: list.splits if_splits)

lemma re_escape_rest: "re_escape buf = Some m \<Longrightarrow> length (snd (snd m)) < length buf"
  by (auto simp: re_escape_def split: list.splits if_splits)

lemma re_text_rest:
  "re_text p buf = Some m \<Longrightarrow> p \<noteq> [] \<Longrightarrow> length (snd (snd m)) < length buf"
  by (auto simp: re_text_def prefix_def split: if_splits)

lemma re_plus_rest: "re_plus P buf = Some m \<Longrightarrow> length (snd (snd m)) < length buf"
proof -
  assume a: "re_plus P buf = Some m"
  have ne: "takeWhile P buf \<noteq> []"
    using a unfolding re_plus_def by (cases "takeWhile P buf = []") simp_all
  have m: "snd (snd m) = dropWhile P buf"
    using a ne unfolding re_plus_def by auto
  have "length (takeWhile P buf) + length (dropWhile P buf) = length buf"
    by (metis length_append takeWhile_dropWhile_id)
  moreover have "0 < length (takeWhile P buf)"
    using ne by (metis length_greater_0_conv)
  ultimately have "length (dropWhile P buf) < length buf" by arith
  then show ?thesis by (simp only: m)
qed

lemma re_filter_rest: "re_filter buf = Some m \<Longrightarrow> length (snd (snd m)) < length buf"
proof (cases buf)
  case Nil
  assume "re_filter buf = Some m"
  with Nil show ?thesis by (simp add: re_filter_def)
next
  case (Cons c r)
  assume a: "re_filter buf = Some m"
  show ?thesis
  proof (cases "dropWhile is_letter r")
    case Nil
    from a [unfolded re_filter_def Cons list.case Nil] show ?thesis
      by (simp split: if_splits)
  next
    case dw: (Cons d r')
    from a [unfolded re_filter_def Cons list.case dw] have m: "snd (snd m) = r'"
      by (auto split: if_splits)
    have "length (dropWhile is_letter r) \<le> length r" by (rule length_dropWhile_le)
    then have "length r' < length buf" unfolding dw Cons by simp
    then show ?thesis by (simp only: m)
  qed
qed

lemma re_dot_rest: "re_dot buf = Some m \<Longrightarrow> length (snd (snd m)) < length buf"
  by (auto simp: re_dot_def split: list.splits)

lemma re_dot_total: "buf \<noteq> [] \<Longrightarrow> re_dot buf \<noteq> None"
  by (auto simp: re_dot_def split: list.splits)

lemma re_empty_rest: "re_empty buf = Some m \<Longrightarrow> snd (snd m) = buf"
  by (auto simp: re_empty_def split: if_splits)

lemma first_match_append:
  "first_match (ts @ us) st buf =
     (case first_match ts st buf of None \<Rightarrow> first_match us st buf | Some r \<Rightarrow> Some r)"
  by (induction ts) (auto split: option.splits)

lemma first_match_mem:
  "first_match ts st buf = Some (t, m) \<Longrightarrow> t \<in> set ts \<and> regex t buf = Some m"
  by (induction ts) (auto split: option.splits if_splits)

lemma first_match_None:
  "first_match ts st buf = None \<Longrightarrow> t \<in> set ts \<Longrightarrow> state_regex t = None \<Longrightarrow>
   regex t buf = None"
  by (induction ts) (auto split: option.splits if_splits)

definition consuming_tokens :: "token list" where
  "consuming_tokens = butlast tokens"

lemma tokens_split: "tokens = consuming_tokens @ [Token None re_empty [] None]"
  by (simp add: consuming_tokens_def tokens_def)

lemma consuming_tokens_rest:
  assumes "t \<in> set consuming_tokens" and "regex t buf = Some m"
  shows "length (snd (snd m)) < length buf"
proof -
  from assms(1) have "regex t = re_literal_escape \<or> regex t = re_escape
      \<or> (\<exists>p. p \<noteq> [] \<and> regex t = re_text p) \<or> (\<exists>P. regex t = re_plus P)
      \<or> regex t = re_filter \<or> regex t = re_dot"
    by (auto simp: consuming_tokens_def tokens_def Token_def)
  with assms(2) show ?thesis
    by (auto dest: re_literal_escape_rest re_escape_rest re_text_rest re_plus_rest
          re_filter_rest re_dot_rest)
qed

lemma first_match_tokens_consumes:
  assumes "first_match tokens st buf = Some (t, m)" and "snd (snd m) \<noteq> []"
  shows "length (snd (snd m)) < length buf"
proof (cases "first_match consuming_tokens st buf")
  case None
  have "Token None re_dot [''AppendArg''] None \<in> set consuming_tokens"
    by (simp add: consuming_tokens_def tokens_def)
  from first_match_None [OF None this] have "re_dot buf = None"
    by (simp add: Token_def)
  then have "buf = []" using re_dot_total by blast
  moreover from assms(1) None have "re_empty buf = Some m"
    by (simp add: tokens_split first_match_append Token_def split: option.splits)
  ultimately show ?thesis using assms(2) re_empty_rest by fastforce
next
  case (Some r)
  with assms(1) have "first_match consuming_tokens st buf = Some (t, m)"
    by (simp add: tokens_split first_match_append)
  from first_match_mem [OF this] consuming_tokens_rest show ?thesis by blast
qed

lemma stack_add_buffer: "stack_add s lx = Inr lx' \<Longrightarrow> buffer lx' = buffer lx"
  by (auto simp: stack_add_def split: list.splits)

lemma Filter_buffer: "Filter w cb m lx = Some (Inr lx') \<Longrightarrow> buffer lx' = buffer lx"
  unfolding Filter_def
  by (auto split: list.splits option.splits sum.splits pyval.splits)

lemma ExpandArg_buffer: "ExpandArg w cb lx = Some (Inr lx') \<Longrightarrow> buffer lx' = buffer lx"
  unfolding ExpandArg_def Let_def
  by (auto split: if_splits option.splits sum.splits dest!: stack_add_buffer)

lemma no_state_Inr: "no_state r = Some (Inr (lx', ns)) \<Longrightarrow> r = Inr lx' \<and> ns = None"
  by (cases r) (auto simp: no_state_def)

lemma run_action_buffer:
  "run_action w cb a m lx = Some (Inr (lx', ns)) \<Longrightarrow> buffer lx' = buffer lx"
  unfolding run_action_def AppendArg_def Escape_def
    EndLiteralExpression_def PopState_def StartExpression_def PushState_def
  by (auto split: if_splits list.splits option.splits
      dest!: no_state_Inr dest: stack_add_buffer Filter_buffer ExpandArg_buffer)

lemma run_actions_buffer:
  "run_actions w cb as m ns lx = Some (Inr (lx', ns')) \<Longrightarrow> buffer lx' = buffer lx"
proof (induction as arbitrary: ns lx)
  case Nil
  then show ?case by simp
next
  case (Cons a as)
  then show ?case
    by (auto split: option.splits sum.splits dest: run_action_buffer)
qed

lemma NextToken_consumes:
  assumes "NextToken w cb lx = Some (Inr lx')" and "buffer lx' \<noteq> []"
  shows "length (buffer lx') < length (buffer lx)"
proof -
  from assms(1) obtain t m lx2 ns where
    fm: "first_match tokens (state lx) (buffer lx) = Some (t, m)" and
    ra: "run_actions w cb (actions t) m (next_state t) (lx\<lparr>buffer := snd (snd m)\<rparr>)
           = Some (Inr (lx2, ns))" and
    lx': "lx' = (case ns of None \<Rightarrow> lx2 | Some s \<Rightarrow> lx2\<lparr>state := s\<rparr>)"
    by (auto simp: NextToken_def split: option.splits sum.splits prod.splits)
  have "buffer lx2 = snd (snd m)"
    using run_actions_buffer [OF ra] by simp
  then have b: "buffer lx' = snd (snd m)"
    using lx' by (simp split: option.splits)
  with assms(2) first_match_tokens_consumes [OF fm] show ?thesis by simp
qed

function Close :: "world \<Rightarrow> callbacks \<Rightarrow> lexer \<Rightarrow> (error + lexer) option" where
  "Close w cb lx =
     (case NextToken w cb lx of
        None \<Rightarrow> None
      | Some (Inl e) \<Rightarrow> Some (Inl e)
      | Some (Inr lx') \<Rightarrow> if buffer lx' = [] then Some (Inr lx') else Close w cb lx')"
  by pat_completeness auto
termination
  by (relation "measure (\<lambda>(w, cb, lx). length (buffer lx))") (auto dest: NextToken_consumes)

declare Close.simps [simp del]

subsection \<open>The interpolator\<close>

definition StringInterpolator :: "string \<Rightarrow> string option \<Rightarrow> lexer" where
  "StringInterpolator data ds =
     \<lparr>buffer = data, state = INITIAL, state_stack = [], stack = [[]], default_section = ds\<rparr>"

definition Parse :: "world \<Rightarrow> callbacks \<Rightarrow> lexer \<Rightarrow> (error + string) option" where
  "Parse w cb lx =
     (case Close w cb lx of
        None \<Rightarrow> None
      | Some (Inl e) \<Rightarrow> Some (Inl e)
      | Some (Inr lx') \<Rightarrow>
          if length (stack lx') \<noteq> 1 then Some (Inl ParseError) else Some (Inr (hd (stack lx'))))"

section \<open>The configuration manager: state\<close>

type_synonym section_data = "string \<rightharpoonup> string"

record config =
  raw_data :: "string \<rightharpoonup> section_data"
  environment :: "string \<rightharpoonup> pyval"
  defaults :: "string \<rightharpoonup> (string \<rightharpoonup> pyval)"
  type_infos :: "string \<rightharpoonup> descriptor"

subsection \<open>EscapeString\<close>

text \<open>
  \<^verbatim>\<open>re.sub(r"([CLASS])", r"\\\1", string)\<close> for a one-character class: every character of
  the class is replaced by a backslash followed by itself.
\<close>

fun re_sub_class :: "char list \<Rightarrow> string \<Rightarrow> string" where
  "re_sub_class cls [] = []"
| "re_sub_class cls (c # cs) =
     (if c \<in> set cls then BS # c # re_sub_class cls cs else c # re_sub_class cls cs)"

text \<open>The class of the source is \<^verbatim>\<open>[\\%){}]\<close>: backslash, percent, close paren, both braces.\<close>

definition escape_class :: "char list" where
  "escape_class = [BS, CHR ''%'', CHR '')'', CHR ''{'', CHR ''}'']"

definition EscapeString :: "string \<Rightarrow> string" where
  "EscapeString string = re_sub_class escape_class string"

subsection \<open>MergeData\<close>

text \<open>
  The incoming raw data is an ordered dictionary of ordered dictionaries; the loops run
  over its items in order, so it is an association list here.
\<close>

type_synonym incoming = "(string \<times> (string \<times> string) list) list"

fun merge_items :: "section_data \<Rightarrow> (string \<times> string) list \<Rightarrow> section_data" where
  "merge_items section_dict [] = section_dict"
| "merge_items section_dict ((k, v) # kvs) = merge_items (section_dict(k \<mapsto> v)) kvs"

fun merge_sections :: "(string \<rightharpoonup> section_data) \<Rightarrow> incoming \<Rightarrow> (string \<rightharpoonup> section_data)" where
  "merge_sections rd [] = rd"
| "merge_sections rd ((section, data) # rest) =
     (let section_dict = (case rd section of None \<Rightarrow> Map.empty | Some d \<Rightarrow> d)
      in merge_sections (rd(section \<mapsto> merge_items section_dict data)) rest)"

definition MergeData :: "config \<Rightarrow> incoming \<Rightarrow> config" where
  "MergeData c raw = c\<lparr>raw_data := merge_sections (raw_data c) raw\<rparr>"

text \<open>\<^verbatim>\<open>raw_data.get(section, {}).get(key)\<close> on the two-level dictionary.\<close>

definition raw_get :: "(string \<rightharpoonup> section_data) \<Rightarrow> string \<Rightarrow> string \<Rightarrow> string option" where
  "raw_get rd section key = (case rd section of None \<Rightarrow> None | Some d \<Rightarrow> d key)"

text \<open>All the items that the incoming data gives for one section, in order.\<close>

definition items_for :: "incoming \<Rightarrow> string \<Rightarrow> (string \<times> string) list" where
  "items_for raw section = concat (map snd (filter (\<lambda>p. fst p = section) raw))"

subsection \<open>Names and layers\<close>

text \<open>\<^verbatim>\<open>_GetSectionName\<close>: \<^verbatim>\<open>name.split(".", 1)\<close>, a name without a dot raising.\<close>

definition priv_GetSectionName :: "string \<Rightarrow> error + string \<times> string" where
  "priv_GetSectionName name =
     (if CHR ''.'' \<in> set name
      then Inr (takeWhile (\<lambda>c. c \<noteq> CHR ''.'') name, tl (dropWhile (\<lambda>c. c \<noteq> CHR ''.'') name))
      else Inl RuntimeError)"

text \<open>
  \<^verbatim>\<open>d.get(k)\<close> on a dictionary with string keys, for a key that is any Python value (an
  inherited section name comes out of the layers): a list or a dictionary cannot be
  hashed, any other value that is not a string is no key of \<open>d\<close>.
\<close>

definition dict_get :: "(string \<rightharpoonup> 'a) \<Rightarrow> pyval \<Rightarrow> error + 'a option" where
  "dict_get d k =
     (case k of
        PStr s \<Rightarrow> Inr (d s)
      | PList _ \<Rightarrow> Inl TypeError
      | PDict _ \<Rightarrow> Inl TypeError
      | _ \<Rightarrow> Inr None)"

text \<open>\<^verbatim>\<open>self.raw_data.get(section_name, {}).get(key)\<close>\<close>

definition raw_layer :: "config \<Rightarrow> pyval \<Rightarrow> string \<Rightarrow> error + pyval" where
  "raw_layer c section_name key =
     (case dict_get (raw_data c) section_name of
        Inl e \<Rightarrow> Inl e
      | Inr None \<Rightarrow> Inr PNone
      | Inr (Some d) \<Rightarrow> Inr (case d key of None \<Rightarrow> PNone | Some v \<Rightarrow> PStr v))"

text \<open>
  \<^verbatim>\<open>self.environment.get(section_name, {}).get(key)\<close>: the environment also holds flat
  entries, and an entry that is no dictionary has no \<^verbatim>\<open>get\<close>.
\<close>

definition environment_layer :: "config \<Rightarrow> pyval \<Rightarrow> string \<Rightarrow> error + pyval" where
  "environment_layer c section_name key =
     (case dict_get (environment c) section_name of
        Inl e \<Rightarrow> Inl e
      | Inr None \<Rightarrow> Inr PNone
      | Inr (Some (PDict d)) \<Rightarrow> Inr (case map_of d key of None \<Rightarrow> PNone | Some v \<Rightarrow> v)
      | Inr (Some _) \<Rightarrow> Inl AttributeError)"

text \<open>\<^verbatim>\<open>self.defaults.get(section_name, {}).get(key)\<close>\<close>

definition defaults_layer :: "config \<Rightarrow> pyval \<Rightarrow> string \<Rightarrow> error + pyval" where
  "defaults_layer c section_name key =
     (case dict_get (defaults c) section_name of
        Inl e \<Rightarrow> Inl e
      | Inr None \<Rightarrow> Inr PNone
      | Inr (Some d) \<Rightarrow> Inr (case d key of None \<Rightarrow> PNone | Some v \<Rightarrow> v))"

text \<open>The first three steps of \<^verbatim>\<open>_GetValue\<close>: each layer is asked only while the value is \<^verbatim>\<open>None\<close>.\<close>

definition stored_value :: "config \<Rightarrow> pyval \<Rightarrow> string \<Rightarrow> error + pyval" where
  "stored_value c section_name key =
     (case raw_layer c section_name key of
        Inl e \<Rightarrow> Inl e
      | Inr v1 \<Rightarrow>
          if v1 \<noteq> PNone then Inr v1
          else (case environment_layer c section_name key of
                  Inl e \<Rightarrow> Inl e
                | Inr v2 \<Rightarrow>
                    if v2 \<noteq> PNone then Inr v2 else defaults_layer c section_name key))"

subsection \<open>\<^verbatim>\<open>_GetValue\<close> and \<^verbatim>\<open>_FindTypeInfo\<close>\<close>

text \<open>
  Both follow \<^verbatim>\<open>@inherit_from_section\<close> without a guard against a cycle, so they are
  partial: \<open>None\<close> is a call that does not return.
\<close>

partial_function (option) priv_GetValue ::
    "config \<Rightarrow> pyval \<Rightarrow> string \<Rightarrow> (error + pyval) option" where
  "priv_GetValue c section_name key =
     (case stored_value c section_name key of
        Inl e \<Rightarrow> Some (Inl e)
      | Inr v \<Rightarrow>
          if v = PNone \<and> \<not> prefix ''@'' key then
            Option.bind (priv_GetValue c section_name ''@inherit_from_section'')
              (\<lambda>r. case r of
                 Inl e \<Rightarrow> Some (Inl e)
               | Inr inherited_from \<Rightarrow>
                   if inherited_from \<noteq> PNone then priv_GetValue c inherited_from key
                   else Some (Inr v))
          else Some (Inr v))"

text \<open>Python's truth value.\<close>

definition truthy :: "pyval \<Rightarrow> bool" where
  "truthy v =
     (case v of
        PNone \<Rightarrow> False
      | PStr s \<Rightarrow> s \<noteq> []
      | PInt i \<Rightarrow> i \<noteq> 0
      | PBool b \<Rightarrow> b
      | PList l \<Rightarrow> l \<noteq> []
      | PDict d \<Rightarrow> d \<noteq> [])"

text \<open>
  \<^verbatim>\<open>self.raw_data.get(section_name) or self.defaults.get(section_name)\<close>: an empty raw
  section is false, so the defaults are taken then. The section is read as a dictionary
  of Python values.
\<close>

definition find_section :: "config \<Rightarrow> string \<Rightarrow> (string \<rightharpoonup> pyval) option" where
  "find_section c s =
     (case raw_data c s of
        None \<Rightarrow> defaults c s
      | Some d \<Rightarrow> if d = Map.empty then defaults c s else Some (map_option PStr \<circ> d))"

text \<open>
  A section name that is no string finds no section (or cannot be hashed), so the
  descriptor's name is only ever formatted from a string.
\<close>

partial_function (option) priv_FindTypeInfo ::
    "config \<Rightarrow> pyval \<Rightarrow> string \<Rightarrow> (error + descriptor option) option" where
  "priv_FindTypeInfo c section_name key =
     (if CHR ''.'' \<in> set key then
        (case priv_GetSectionName key of
           Inl e \<Rightarrow> Some (Inl e)
         | Inr (s, k) \<Rightarrow> priv_FindTypeInfo c (PStr s) k)
      else
        (case section_name of
           PStr s \<Rightarrow>
             (case find_section c s of
                None \<Rightarrow> Some (Inr None)
              | Some sec \<Rightarrow>
                  (case type_infos c (s @ ''.'' @ key) of
                     Some result \<Rightarrow> Some (Inr (Some result))
                   | None \<Rightarrow>
                       (case sec ''@inherit_from_section'' of
                          None \<Rightarrow> Some (Inr None)
                        | Some inherited_from \<Rightarrow>
                            if truthy inherited_from
                            then priv_FindTypeInfo c inherited_from key
                            else Some (Inr None))))
         | PList _ \<Rightarrow> Some (Inl TypeError)
         | PDict _ \<Rightarrow> Some (Inl TypeError)
         | _ \<Rightarrow> Some (Inr None)))"

definition FindTypeInfo :: "config \<Rightarrow> string \<Rightarrow> (error + descriptor option) option" where
  "FindTypeInfo c parameter_name =
     (case priv_GetSectionName parameter_name of
        Inl e \<Rightarrow> Some (Inr None)
      | Inr (s, parameter) \<Rightarrow> priv_FindTypeInfo c (PStr s) parameter)"

subsection \<open>Set and SetRaw\<close>

definition setdefault :: "(string \<rightharpoonup> section_data) \<Rightarrow> string \<Rightarrow> section_data" where
  "setdefault rd s = (case rd s of None \<Rightarrow> Map.empty | Some d \<Rightarrow> d)"

definition SetRaw :: "world \<Rightarrow> config \<Rightarrow> string \<Rightarrow> pyval \<Rightarrow> (error + config) option" where
  "SetRaw w c name v =
     (case priv_GetSectionName name of
        Inl e \<Rightarrow> Some (Inl e)
      | Inr (s, key) \<Rightarrow>
          (case priv_FindTypeInfo c (PStr s) key of
             None \<Rightarrow> None
           | Some (Inl e) \<Rightarrow> Some (Inl e)
           | Some (Inr found) \<Rightarrow>
               (case ToString (or_String w found) v of
                  Inl e \<Rightarrow> Some (Inl e)
                | Inr str \<Rightarrow>
                    Some (Inr (c\<lparr>raw_data :=
                      (raw_data c)(s \<mapsto> (setdefault (raw_data c) s)(key \<mapsto> str))\<rparr>)))))"

text \<open>
  \<^verbatim>\<open>Set\<close>: after the key is popped for a \<^verbatim>\<open>None\<close> value the method goes on: it
  serialises the value and stores it.
\<close>

definition Set :: "world \<Rightarrow> config \<Rightarrow> string \<Rightarrow> pyval \<Rightarrow> bool \<Rightarrow> (error + config) option" where
  "Set w c name v verify =
     (case priv_GetSectionName name of
        Inl e \<Rightarrow> Some (Inl e)
      | Inr (s, key) \<Rightarrow>
          if lower s = ''environment'' then Some (Inl RuntimeError)
          else
            (case priv_FindTypeInfo c (PStr s) key of
               None \<Rightarrow> None
             | Some (Inl e) \<Rightarrow> Some (Inl e)
             | Some (Inr found) \<Rightarrow>
                 (let type_info_obj = or_String w found;
                      section_data0 = setdefault (raw_data c) s;
                      section_data = (if v = PNone then section_data0(key := None)
                                      else section_data0)
                  in if v \<noteq> PNone \<and> verify \<and> \<not> Validate type_info_obj v
                     then Some (Inl TypeValueError)
                     else (case ToString type_info_obj v of
                             Inl e \<Rightarrow> Some (Inl e)
                           | Inr str \<Rightarrow>
                               Some (Inr (c\<lparr>raw_data :=
                                 (raw_data c)(s \<mapsto> section_data(key \<mapsto> EscapeString str))\<rparr>))))))"

subsection \<open>Get\<close>

text \<open>\<^verbatim>\<open>str.splitlines()\<close> of a byte string: lines end at LF, CR or CR LF.\<close>

fun splitlines_from :: "string \<Rightarrow> string \<Rightarrow> string list" where
  "splitlines_from cur [] = (if cur = [] then [] else [cur])"
| "splitlines_from cur (c # cs) =
     (if c = NL then cur # splitlines_from [] cs
      else if c = CR then
        (case cs of
           [] \<Rightarrow> [cur]
         | d # ds \<Rightarrow> if d = NL then cur # splitlines_from [] ds else cur # splitlines_from [] cs)
      else splitlines_from (cur @ [c]) cs)"

definition splitlines :: "string \<Rightarrow> string list" where
  "splitlines s = splitlines_from [] s"

fun join :: "string \<Rightarrow> string list \<Rightarrow> string" where
  "join sep [] = []"
| "join sep [x] = x"
| "join sep (x # y # ys) = x @ sep @ join sep (y # ys)"

definition NewlineFixup :: "pyval \<Rightarrow> pyval" where
  "NewlineFixup input_data =
     (case input_data of
        PStr s \<Rightarrow>
          PStr (join [NL] (concat (map
            (\<lambda>line. if prefix ''DEK-Info:'' line then [line, []] else [line]) (splitlines s))))
      | _ \<Rightarrow> input_data)"

text \<open>
  \<^verbatim>\<open>Get\<close>, with \<^verbatim>\<open>self.InterpolateValue\<close> as a parameter: interpolation calls back into
  \<^verbatim>\<open>Get\<close>, and the recursion is tied below.
\<close>

definition Get_with ::
    "(pyval \<Rightarrow> descriptor \<Rightarrow> string option \<Rightarrow> (error + pyval) option) \<Rightarrow>
     world \<Rightarrow> config \<Rightarrow> string \<Rightarrow> bool \<Rightarrow> bool \<Rightarrow> (error + pyval) option" where
  "Get_with interpolate w c name verify environ =
     (case (if environ then environment c name else None) of
        Some return_value \<Rightarrow> Some (Inr return_value)
      | None \<Rightarrow>
         (case priv_GetSectionName name of
            Inl e \<Rightarrow> Some (Inl e)
          | Inr (section_name, key) \<Rightarrow>
             (case priv_FindTypeInfo c (PStr section_name) key of
                None \<Rightarrow> None
              | Some (Inl e) \<Rightarrow> Some (Inl e)
              | Some (Inr found) \<Rightarrow>
                 (case priv_GetValue c (PStr section_name) key of
                    None \<Rightarrow> None
                  | Some (Inl e) \<Rightarrow> Some (Inl e)
                  | Some (Inr v) \<Rightarrow>
                     (case interpolate (NewlineFixup v) (or_String w found) (Some section_name) of
                        None \<Rightarrow> None
                      | Some (Inl e) \<Rightarrow>
                          Some (Inl (if e = ParseError \<or> e = TypeValueError
                                     then ConfigFormatError else e))
                      | Some (Inr return_value) \<Rightarrow>
                          if verify \<and> \<not> prefix ''__'' key
                             \<and> \<not> Validate (or_String w found) return_value
                          then Some (Inl ConfigFormatError)
                          else Some (Inr return_value))))))"

text \<open>
  The configuration object as the interpolator calls it: \<^verbatim>\<open>config[name]\<close> is
  \<^verbatim>\<open>Get(name)\<close> with the default arguments, and the \<^verbatim>\<open>expand\<close> filter calls
  \<^verbatim>\<open>CONFIG.InterpolateValue(data)\<close> with the default descriptor and no default section.
  The global \<^verbatim>\<open>CONFIG\<close> is this configuration.
\<close>

definition config_callbacks ::
    "(pyval \<Rightarrow> descriptor \<Rightarrow> string option \<Rightarrow> (error + pyval) option) \<Rightarrow>
     world \<Rightarrow> config \<Rightarrow> callbacks" where
  "config_callbacks interpolate w c =
     \<lparr>config_getitem = (\<lambda>name. Get_with interpolate w c name False True),
      config_FindTypeInfo = FindTypeInfo c,
      config_InterpolateValue = (\<lambda>data. interpolate (PStr data) (ti_String w) None)\<rparr>"

text \<open>
  \<^verbatim>\<open>InterpolateValue\<close>. A parameter can refer to itself, so the nesting of
  interpolations is bounded by fuel: \<open>None\<close> is an evaluation that needs more. A value
  that is no string is returned as it is and needs none.
\<close>

primrec InterpolateValue ::
    "nat \<Rightarrow> world \<Rightarrow> config \<Rightarrow> pyval \<Rightarrow> descriptor \<Rightarrow> string option \<Rightarrow> (error + pyval) option" where
  "InterpolateValue 0 w c v type_info_obj ds =
     (case v of PStr s \<Rightarrow> None | _ \<Rightarrow> Some (Inr v))"
| "InterpolateValue (Suc n) w c v type_info_obj ds =
     (case v of
        PStr s \<Rightarrow>
          (case Parse w (config_callbacks (InterpolateValue n w c) w c)
                  (StringInterpolator s ds) of
             None \<Rightarrow> None
           | Some (Inl e) \<Rightarrow> Some (Inl e)
           | Some (Inr str) \<Rightarrow> Some (FromString type_info_obj str))
      | _ \<Rightarrow> Some (Inr v))"

definition Get :: "nat \<Rightarrow> world \<Rightarrow> config \<Rightarrow> string \<Rightarrow> bool \<Rightarrow> bool \<Rightarrow> (error + pyval) option" where
  "Get fuel w c name verify environ = Get_with (InterpolateValue fuel w c) w c name verify environ"

section \<open>A small configuration for the examples\<close>

text \<open>
  A string descriptor standing for \<^verbatim>\<open>type_info.String\<close> in the examples: it accepts
  strings, renders a string as itself and \<^verbatim>\<open>None\<close> as the text \<^verbatim>\<open>None\<close>, and parses a
  string to itself.
\<close>

definition example_String :: descriptor where
  "example_String =
     \<lparr>Validate = (\<lambda>v. case v of PStr _ \<Rightarrow> True | _ \<Rightarrow> False),
      ToString = (\<lambda>v. case v of PStr s \<Rightarrow> Inr s | PNone \<Rightarrow> Inr ''None'' | _ \<Rightarrow> Inl TypeError),
      FromString = (\<lambda>s. Inr (PStr s))\<rparr>"

definition example_world :: world where
  "example_world =
     \<lparr>fs = (\<lambda>path. if path = ''big'' then Inr (replicate 1024001 (CHR ''x''))
                  else if path = ''motd'' then Inr ''hello''
                  else Inl IOError),
      os_environ = Map.empty,
      FLAGS = Map.empty,
      base64_decode = (\<lambda>s. Inl OtherError),
      ti_String = example_String\<rparr>"

definition example_config :: config where
  "example_config =
     \<lparr>raw_data = [''A'' \<mapsto> [''@inherit_from_section'' \<mapsto> ''B'', ''own'' \<mapsto> ''1''],
                  ''B'' \<mapsto> [''key'' \<mapsto> ''v'', ''open'' \<mapsto> ''%(abc'', ''close'' \<mapsto> '')'',
                           ''bad'' \<mapsto> ''|lower)'', ''ref'' \<mapsto> ''a%(Nope.x)b'']],
      environment = [''A'' \<mapsto> PDict [(''envkey'', PStr ''e'')],
                     ''Flat.name'' \<mapsto> PStr ''%(x''],
      defaults = [''A'' \<mapsto> [''dflt'' \<mapsto> PInt 3]],
      type_infos = Map.empty\<rparr>"

definition example_S1 :: incoming where
  "example_S1 = [(''Sec'', [(''k'', ''one''), (''j'', ''kept'')])]"

definition example_S2 :: incoming where
  "example_S2 = [(''Sec'', [(''k'', ''two'')]), (''New'', [(''n'', ''x'')])]"

definition example_lexer :: lexer where
  "example_lexer =
     \<lparr>buffer = ''b'', state = INITIAL, state_stack = [], stack = [''Nope.x'', ''a''],
      default_section = Some ''B''\<rparr>"

section \<open>Properties\<close>

lemma merge_items_eq: "merge_items d kvs = d ++ map_of (rev kvs)"
  by (induction kvs arbitrary: d) (auto simp: map_add_def fun_eq_iff split: option.splits)

lemma raw_get_merge_sections:
  "raw_get (merge_sections rd raw) s k =
     (case map_of (rev (items_for raw s)) k of
        Some v \<Rightarrow> Some v
      | None \<Rightarrow> raw_get rd s k)"
proof (induction raw arbitrary: rd)
  case Nil
  show ?case by (simp add: items_for_def)
next
  case (Cons p raw)
  obtain sec data where p: "p = (sec, data)" by (cases p)
  show ?case
    unfolding p
    by (simp add: Cons.IH Let_def, simp add: items_for_def raw_get_def merge_items_eq map_add_def
        split: option.splits)
qed

subsection \<open>MergeData\<close>

lemma items_for_distinct:
  "distinct (map fst raw) \<Longrightarrow> (s, d) \<in> set raw \<Longrightarrow> items_for raw s = d"
proof (induction raw)
  case Nil
  then show ?case by simp
next
  case (Cons p raw)
  have none: "fst p \<notin> fst ` set raw \<Longrightarrow> filter (\<lambda>q. fst q = fst p) raw = []"
    by (induction raw) (auto simp: image_iff)
  show ?case
  proof (cases "p = (s, d)")
    case True
    with Cons.prems none show ?thesis by (simp add: items_for_def)
  next
    case False
    with Cons.prems have mem: "(s, d) \<in> set raw" and ne: "fst p \<noteq> s"
      by (auto simp: image_iff)
    with Cons show ?thesis by (simp add: items_for_def)
  qed
qed

lemma set_items_for: "set (items_for raw s) = (\<Union>d \<in> {d. (s, d) \<in> set raw}. set d)"
  by (induction raw) (auto simp: items_for_def)

text \<open>
  C8: \<^verbatim>\<open>MergeData\<close> merges per section and per key. For incoming data that is a
  dictionary of dictionaries (no section and no key twice), every incoming key has the
  incoming value afterwards, so a later source wins over an earlier one, and every key
  that the incoming data does not define keeps the value it had.
\<close>

theorem MergeData_per_key:
  assumes "distinct (map fst raw)" and "\<forall>(s, d) \<in> set raw. distinct (map fst d)"
  shows "(\<forall>s d k v. (s, d) \<in> set raw \<and> (k, v) \<in> set d \<longrightarrow>
            raw_get (raw_data (MergeData c raw)) s k = Some v)
       \<and> (\<forall>s k. (\<forall>d v. (s, d) \<in> set raw \<longrightarrow> (k, v) \<notin> set d) \<longrightarrow>
            raw_get (raw_data (MergeData c raw)) s k = raw_get (raw_data c) s k)"
proof (intro conjI allI impI)
  fix s d k v
  assume h: "(s, d) \<in> set raw \<and> (k, v) \<in> set d"
  then have items: "items_for raw s = d" using assms(1) items_for_distinct by blast
  from h assms(2) have "distinct (map fst d)" by blast
  then have "distinct (map fst (rev d))" by (simp add: rev_map [symmetric])
  with h have "map_of (rev d) k = Some v" by (intro map_of_is_SomeI) simp_all
  then show "raw_get (raw_data (MergeData c raw)) s k = Some v"
    by (simp add: MergeData_def raw_get_merge_sections items)
next
  fix s k
  assume h: "\<forall>d v. (s, d) \<in> set raw \<longrightarrow> (k, v) \<notin> set d"
  then have "k \<notin> fst ` set (rev (items_for raw s))"
    by (auto simp: set_items_for)
  then have "map_of (rev (items_for raw s)) k = None"
    by (metis map_of_eq_None_iff)
  then show "raw_get (raw_data (MergeData c raw)) s k = raw_get (raw_data c) s k"
    by (simp add: MergeData_def raw_get_merge_sections)
qed

theorem MergeData_per_key_witness:
  "raw_get (raw_data (MergeData (MergeData example_config example_S1) example_S2)) ''Sec'' ''k''
     = Some ''two''
   \<and> raw_get (raw_data (MergeData (MergeData example_config example_S1) example_S2)) ''Sec'' ''j''
     = Some ''kept''"
proof -
  have d1: "distinct (map fst example_S2)"
    and d2: "\<forall>(s, d) \<in> set example_S2. distinct (map fst d)"
    by (simp_all add: example_S2_def)
  have kept: "raw_get (raw_data (MergeData example_config example_S1)) ''Sec'' ''j'' = Some ''kept''"
    by (simp add: MergeData_def example_S1_def example_config_def raw_get_def)
  have a: "(''Sec'', [(''k'', ''two'')]) \<in> set example_S2 \<and> (''k'', ''two'') \<in> set [(''k'', ''two'')]"
    by (simp add: example_S2_def)
  have b: "\<forall>d v. (''Sec'', d) \<in> set example_S2 \<longrightarrow> (''j'', v) \<notin> set d"
    by (simp add: example_S2_def)
  from MergeData_per_key [OF d1 d2, of "MergeData example_config example_S1"] a b kept
  show ?thesis by metis
qed

subsection \<open>EscapeString and Set\<close>

lemma EscapeString_concat:
  "EscapeString s = concat (map (\<lambda>c. if c \<in> set escape_class then [BS, c] else [c]) s)"
  unfolding EscapeString_def by (induction s) simp_all

lemma example_FindTypeInfo_B:
  "priv_FindTypeInfo example_config (PStr ''B'') k =
     (if CHR ''.'' \<in> set k then
        (case priv_GetSectionName k of
           Inl e \<Rightarrow> Some (Inl e)
         | Inr (s, k') \<Rightarrow> priv_FindTypeInfo example_config (PStr s) k')
      else Some (Inr None))"
  by (subst priv_FindTypeInfo.simps) (simp add: find_section_def example_config_def)

text \<open>
  C1, as the code has it: \<^verbatim>\<open>EscapeString\<close> puts one backslash in front of every
  backslash, percent sign, closing parenthesis, opening brace and closing brace, and
  leaves every other character (the opening parenthesis too) as it is; and when
  \<^verbatim>\<open>Set\<close> returns, the raw data of the section holds under the key the escaped
  \<^verbatim>\<open>ToString\<close> of the value, for the descriptor found for the key (or the string
  descriptor when there is none).
\<close>

theorem EscapeString_Set:
  "EscapeString s =
     concat (map (\<lambda>c. if c \<in> {BS, CHR ''%'', CHR '')'', CHR ''{'', CHR ''}''}
                       then [BS, c] else [c]) s)
   \<and> (Set w c name v verify = Some (Inr c') \<longrightarrow>
        (\<exists>sec key found str.
           priv_GetSectionName name = Inr (sec, key)
           \<and> priv_FindTypeInfo c (PStr sec) key = Some (Inr found)
           \<and> ToString (or_String w found) v = Inr str
           \<and> raw_get (raw_data c') sec key = Some (EscapeString str)))"
proof
  show "EscapeString s =
     concat (map (\<lambda>c. if c \<in> {BS, CHR ''%'', CHR '')'', CHR ''{'', CHR ''}''}
                       then [BS, c] else [c]) s)"
    by (simp add: EscapeString_concat escape_class_def)
next
  show "Set w c name v verify = Some (Inr c') \<longrightarrow>
        (\<exists>sec key found str.
           priv_GetSectionName name = Inr (sec, key)
           \<and> priv_FindTypeInfo c (PStr sec) key = Some (Inr found)
           \<and> ToString (or_String w found) v = Inr str
           \<and> raw_get (raw_data c') sec key = Some (EscapeString str))"
    unfolding Set_def Let_def
    by (auto simp: raw_get_def split: sum.splits option.splits if_splits prod.splits)
qed

theorem EscapeString_Set_witness:
  "(case Set example_world example_config ''B.pct'' (PStr ''50%(x)'') True of
      Some (Inr c') \<Rightarrow> raw_get (raw_data c') ''B'' ''pct''
    | _ \<Rightarrow> None) = Some (''50'' @ [BS] @ ''%(x'' @ [BS] @ '')'')"
proof -
  have "\<exists>c'. Set example_world example_config ''B.pct'' (PStr ''50%(x)'') True = Some (Inr c')"
    by (simp add: Set_def priv_GetSectionName_def lower_def lower_char_def ascii_lowercase_def
        ascii_uppercase_def example_FindTypeInfo_B or_String_def example_world_def example_String_def Let_def)
  then obtain c' where
    h: "Set example_world example_config ''B.pct'' (PStr ''50%(x)'') True = Some (Inr c')" ..
  from EscapeString_Set [THEN conjunct2, rule_format, OF h]
  obtain sec key found str where
    n: "priv_GetSectionName ''B.pct'' = Inr (sec, key)" and
    f: "priv_FindTypeInfo example_config (PStr sec) key = Some (Inr found)" and
    t: "ToString (or_String example_world found) (PStr ''50%(x)'') = Inr str" and
    r: "raw_get (raw_data c') sec key = Some (EscapeString str)"
    by blast
  from n have sk: "sec = ''B''" "key = ''pct''" by (simp_all add: priv_GetSectionName_def)
  from f have "found = None" by (simp add: sk example_FindTypeInfo_B)
  with t have "str = ''50%(x)''"
    by (simp add: or_String_def example_world_def example_String_def)
  with r sk h show ?thesis by (simp add: EscapeString_def escape_class_def)
qed

text \<open>
  C1 as the claim states it fails: an opening parenthesis gets no backslash.
\<close>

theorem EscapeString_open_paren_counterexample:
  "EscapeString ''a(b'' = ''a(b'' \<and> EscapeString ''a(b'' \<noteq> ''a'' @ [BS] @ ''(b''"
  by (simp add: EscapeString_def escape_class_def)

subsection \<open>Set with the value None\<close>

text \<open>
  Whenever \<^verbatim>\<open>Set(name, None)\<close> returns, the key is in the raw data: it holds the escaped
  \<^verbatim>\<open>ToString\<close> of \<^verbatim>\<open>None\<close>.
\<close>

lemma Set_None_stores:
  "Set w c name PNone verify = Some (Inr c') \<Longrightarrow>
   \<exists>sec key found str. priv_GetSectionName name = Inr (sec, key)
     \<and> priv_FindTypeInfo c (PStr sec) key = Some (Inr found)
     \<and> ToString (or_String w found) PNone = Inr str
     \<and> raw_get (raw_data c') sec key = Some (EscapeString str)"
  unfolding Set_def Let_def
  by (auto simp: raw_get_def split: sum.splits option.splits if_splits prod.splits)

text \<open>
  C2 on the code: \<^verbatim>\<open>Set("B.key", None)\<close> on a configuration that holds \<^verbatim>\<open>B.key\<close> does
  not delete the key. The key is popped and then stored again, with the text \<^verbatim>\<open>None\<close>.
\<close>

theorem Set_None_keeps_key:
  "raw_get (raw_data example_config) ''B'' ''key'' = Some ''v''
   \<and> (case Set example_world example_config ''B.key'' PNone True of
         Some (Inr c') \<Rightarrow> raw_get (raw_data c') ''B'' ''key''
       | _ \<Rightarrow> None) = Some ''None''"
  by (simp add: Set_def priv_GetSectionName_def lower_def lower_char_def ascii_lowercase_def
      ascii_uppercase_def example_FindTypeInfo_B or_String_def example_world_def example_String_def Let_def
      EscapeString_def escape_class_def raw_get_def, simp add: example_config_def)

subsection \<open>The layers of \<^verbatim>\<open>_GetValue\<close>\<close>

lemma priv_GetValue_found:
  "stored_value c s k = Inr v \<Longrightarrow> v \<noteq> PNone \<Longrightarrow> priv_GetValue c s k = Some (Inr v)"
  by (subst priv_GetValue.simps) simp

lemma priv_GetValue_sentinel:
  "prefix ''@'' k \<Longrightarrow> priv_GetValue c s k = Some (stored_value c s k)"
  by (subst priv_GetValue.simps) (simp split: sum.splits)

lemma priv_GetValue_inherit:
  "stored_value c s k = Inr PNone \<Longrightarrow> \<not> prefix ''@'' k \<Longrightarrow>
   priv_GetValue c s ''@inherit_from_section'' = Some (Inr inh) \<Longrightarrow> inh \<noteq> PNone \<Longrightarrow>
   priv_GetValue c s k = priv_GetValue c inh k"
  by (subst priv_GetValue.simps) simp

lemma priv_GetValue_no_parent:
  "stored_value c s k = Inr PNone \<Longrightarrow>
   priv_GetValue c s ''@inherit_from_section'' = Some (Inr PNone) \<Longrightarrow>
   priv_GetValue c s k = Some (Inr PNone)"
  by (subst priv_GetValue.simps) simp

lemma raw_layer_raw_get:
  "raw_layer c (PStr s) k = Inr (case raw_get (raw_data c) s k of None \<Rightarrow> PNone | Some v \<Rightarrow> PStr v)"
  by (simp add: raw_layer_def raw_get_def dict_get_def split: option.splits)

text \<open>
  C3: \<^verbatim>\<open>_GetValue\<close> returns the value of the raw data when there is one, else the one of
  the environment's section, else the one of the defaults. When the three layers have
  none and the key does not start with \<^verbatim>\<open>@\<close>, the result is that of the same lookup in
  the section that the lookup of \<^verbatim>\<open>@inherit_from_section\<close> returns. For a key that
  starts with \<^verbatim>\<open>@\<close> the result is what the three layers hold: no section is inherited.
\<close>

theorem GetValue_order:
  "(raw_get (raw_data c) s k = Some v1 \<longrightarrow> priv_GetValue c (PStr s) k = Some (Inr (PStr v1)))
   \<and> (raw_get (raw_data c) s k = None \<and> environment c s = Some (PDict d) \<and> map_of d k = Some v2
        \<and> v2 \<noteq> PNone \<longrightarrow> priv_GetValue c (PStr s) k = Some (Inr v2))
   \<and> (raw_get (raw_data c) s k = None \<and> environment_layer c (PStr s) k = Inr PNone
        \<and> defaults c s = Some dd \<and> dd k = Some v3 \<and> v3 \<noteq> PNone \<longrightarrow>
          priv_GetValue c (PStr s) k = Some (Inr v3))
   \<and> (stored_value c (PStr s) k = Inr PNone \<and> \<not> prefix ''@'' k
        \<and> priv_GetValue c (PStr s) ''@inherit_from_section'' = Some (Inr inh) \<and> inh \<noteq> PNone \<longrightarrow>
          priv_GetValue c (PStr s) k = priv_GetValue c inh k)
   \<and> (prefix ''@'' k \<longrightarrow> priv_GetValue c (PStr s) k = Some (stored_value c (PStr s) k))"
proof (intro conjI impI)
  assume "raw_get (raw_data c) s k = Some v1"
  then have "stored_value c (PStr s) k = Inr (PStr v1)"
    by (simp add: stored_value_def raw_layer_raw_get)
  then show "priv_GetValue c (PStr s) k = Some (Inr (PStr v1))"
    by (rule priv_GetValue_found) simp
next
  assume h: "raw_get (raw_data c) s k = None \<and> environment c s = Some (PDict d)
      \<and> map_of d k = Some v2 \<and> v2 \<noteq> PNone"
  then have "stored_value c (PStr s) k = Inr v2"
    by (simp add: stored_value_def raw_layer_raw_get environment_layer_def dict_get_def)
  with h show "priv_GetValue c (PStr s) k = Some (Inr v2)"
    by (intro priv_GetValue_found) simp_all
next
  assume h: "raw_get (raw_data c) s k = None \<and> environment_layer c (PStr s) k = Inr PNone
      \<and> defaults c s = Some dd \<and> dd k = Some v3 \<and> v3 \<noteq> PNone"
  then have "stored_value c (PStr s) k = Inr v3"
    by (simp add: stored_value_def raw_layer_raw_get defaults_layer_def dict_get_def)
  with h show "priv_GetValue c (PStr s) k = Some (Inr v3)"
    by (intro priv_GetValue_found) simp_all
next
  assume "stored_value c (PStr s) k = Inr PNone \<and> \<not> prefix ''@'' k
      \<and> priv_GetValue c (PStr s) ''@inherit_from_section'' = Some (Inr inh) \<and> inh \<noteq> PNone"
  then show "priv_GetValue c (PStr s) k = priv_GetValue c inh k"
    by (intro priv_GetValue_inherit) simp_all
next
  assume "prefix ''@'' k"
  then show "priv_GetValue c (PStr s) k = Some (stored_value c (PStr s) k)"
    by (rule priv_GetValue_sentinel)
qed

lemma example_stored:
  "stored_value example_config (PStr ''A'') ''key'' = Inr PNone"
  "stored_value example_config (PStr ''A'') ''@inherit_from_section'' = Inr (PStr ''B'')"
  "stored_value example_config (PStr ''B'') ''@inherit_from_section'' = Inr PNone"
  by (simp_all add: stored_value_def raw_layer_def environment_layer_def defaults_layer_def
      dict_get_def example_config_def)

theorem GetValue_order_witness:
  "priv_GetValue example_config (PStr ''A'') ''own'' = Some (Inr (PStr ''1''))
   \<and> priv_GetValue example_config (PStr ''A'') ''envkey'' = Some (Inr (PStr ''e''))
   \<and> priv_GetValue example_config (PStr ''A'') ''dflt'' = Some (Inr (PInt 3))
   \<and> priv_GetValue example_config (PStr ''A'') ''key'' = Some (Inr (PStr ''v''))
   \<and> priv_GetValue example_config (PStr ''B'') ''@inherit_from_section'' = Some (Inr PNone)"
proof -
  note G = GetValue_order [where c = example_config]
  have own: "raw_get (raw_data example_config) ''A'' ''own'' = Some ''1''"
    by (simp add: raw_get_def example_config_def)
  have envkey: "raw_get (raw_data example_config) ''A'' ''envkey'' = None
      \<and> environment example_config ''A'' = Some (PDict [(''envkey'', PStr ''e'')])
      \<and> map_of [(''envkey'', PStr ''e'')] ''envkey'' = Some (PStr ''e'') \<and> PStr ''e'' \<noteq> PNone"
    by (simp add: raw_get_def example_config_def)
  have dflt: "raw_get (raw_data example_config) ''A'' ''dflt'' = None
      \<and> environment_layer example_config (PStr ''A'') ''dflt'' = Inr PNone
      \<and> defaults example_config ''A'' = Some [''dflt'' \<mapsto> PInt 3]
      \<and> [''dflt'' \<mapsto> PInt 3] ''dflt'' = Some (PInt 3) \<and> PInt 3 \<noteq> PNone"
    by (simp add: raw_get_def environment_layer_def dict_get_def example_config_def)
  have at_A: "priv_GetValue example_config (PStr ''A'') ''@inherit_from_section''
      = Some (Inr (PStr ''B''))"
    using G [of "''A''" "''@inherit_from_section''", THEN conjunct2, THEN conjunct2,
        THEN conjunct2, THEN conjunct2]
    by (simp add: example_stored)
  have at_B: "priv_GetValue example_config (PStr ''B'') ''@inherit_from_section''
      = Some (Inr PNone)"
    using G [of "''B''" "''@inherit_from_section''", THEN conjunct2, THEN conjunct2,
        THEN conjunct2, THEN conjunct2]
    by (simp add: example_stored)
  have Bkey: "priv_GetValue example_config (PStr ''B'') ''key'' = Some (Inr (PStr ''v''))"
    using G [of "''B''" "''key''" "''v''", THEN conjunct1]
    by (simp add: raw_get_def example_config_def)
  have inh: "stored_value example_config (PStr ''A'') ''key'' = Inr PNone \<and> \<not> prefix ''@'' ''key''
      \<and> priv_GetValue example_config (PStr ''A'') ''@inherit_from_section'' = Some (Inr (PStr ''B''))
      \<and> PStr ''B'' \<noteq> PNone"
    by (simp add: example_stored at_A)
  show ?thesis
    using G [of "''A''" "''own''" "''1''", THEN conjunct1, rule_format, OF own]
      G [of "''A''" "''envkey''" _ "[(''envkey'', PStr ''e'')]" "PStr ''e''",
        THEN conjunct2, THEN conjunct1, rule_format, OF envkey]
      G [of "''A''" "''dflt''" _ _ _ "[''dflt'' \<mapsto> PInt 3]" "PInt 3",
        THEN conjunct2, THEN conjunct2, THEN conjunct1, rule_format, OF dflt]
      G [of "''A''" "''key''" _ _ _ _ _ "PStr ''B''",
        THEN conjunct2, THEN conjunct2, THEN conjunct2, THEN conjunct1, rule_format, OF inh]
      Bkey at_B
    by simp
qed

subsection \<open>Evaluating the interpolator\<close>

lemmas lexer_eval = Parse_def StringInterpolator_def Close.simps NextToken_def tokens_def Token_def
    re_literal_escape_def re_escape_def re_text_def re_plus_def not_close_brace_def plain_char_def re_filter_def re_dot_def re_empty_def
    run_action_def no_state_def AppendArg_def Escape_def stack_add_def STRING_ESCAPES_def
    EndLiteralExpression_def PopState_def StartExpression_def PushState_def
    is_letter_def ascii_lowercase_def ascii_uppercase_def
    Filter_def classes_by_name_def lower_def upper_def lower_char_def upper_char_def ExpandArg_def

lemma example_GetValue_B:
  "priv_GetValue example_config (PStr ''B'') ''open'' = Some (Inr (PStr ''%(abc''))"
  "priv_GetValue example_config (PStr ''B'') ''close'' = Some (Inr (PStr '')''))"
  "priv_GetValue example_config (PStr ''B'') ''bad'' = Some (Inr (PStr ''|lower)''))"
  "priv_GetValue example_config (PStr ''B'') ''ref'' = Some (Inr (PStr ''a%(Nope.x)b''))"
  by (rule priv_GetValue_found,
      simp add: stored_value_def raw_layer_def dict_get_def example_config_def, simp)+

lemma NewlineFixup_one_line:
  "NL \<notin> set s \<Longrightarrow> CR \<notin> set s \<Longrightarrow> \<not> prefix ''DEK-Info:'' s \<Longrightarrow>
   NewlineFixup (PStr s) = PStr s"
proof -
  assume a: "NL \<notin> set s" "CR \<notin> set s" "\<not> prefix ''DEK-Info:'' s"
  have "\<And>cur. NL \<notin> set s \<Longrightarrow> CR \<notin> set s \<Longrightarrow>
      splitlines_from cur s = (if cur @ s = [] then [] else [cur @ s])"
    by (induction s) auto
  with a have "splitlines s = (if s = [] then [] else [s])"
    by (simp add: splitlines_def)
  with a show ?thesis by (simp add: NewlineFixup_def)
qed

lemma example_environment:
  "environment example_config name =
     (if name = ''A'' then Some (PDict [(''envkey'', PStr ''e'')])
      else if name = ''Flat.name'' then Some (PStr ''%(x'') else None)"
  by (simp add: example_config_def)

text \<open>
  C4 on the code. An unclosed \<^verbatim>\<open>%(abc\<close> is a \<^verbatim>\<open>ParseError\<close> of \<^verbatim>\<open>Parse\<close> and a lone \<^verbatim>\<open>)\<close>
  a \<^verbatim>\<open>ConfigFormatError\<close> of the lexer's \<^verbatim>\<open>Error\<close>; \<^verbatim>\<open>Get\<close> gives a \<^verbatim>\<open>ConfigFormatError\<close> for
  both. But the closing parenthesis of a filter suffix with nothing open, as in
  \<^verbatim>\<open>|lower)\<close>, is no parse error: \<^verbatim>\<open>Filter\<close> pops the only accumulator without the check
  that \<^verbatim>\<open>ExpandArg\<close> makes, and the evaluation ends in an \<^verbatim>\<open>IndexError\<close>, which \<^verbatim>\<open>Get\<close>
  does not turn into a \<^verbatim>\<open>ConfigFormatError\<close>.
\<close>

theorem unbalanced_errors:
  "Parse w cb (StringInterpolator ''%(abc'' ds) = Some (Inl ParseError)
   \<and> Parse w cb (StringInterpolator '')'' ds) = Some (Inl ConfigFormatError)
   \<and> Parse w cb (StringInterpolator ''|lower)'' ds) = Some (Inl IndexError)
   \<and> Get (Suc 0) example_world example_config ''B.open'' False True
       = Some (Inl ConfigFormatError)
   \<and> Get (Suc 0) example_world example_config ''B.close'' False True
       = Some (Inl ConfigFormatError)
   \<and> Get (Suc 0) example_world example_config ''B.bad'' False True = Some (Inl IndexError)"
  by (simp add: Get_def Get_with_def example_environment priv_GetSectionName_def
      example_FindTypeInfo_B example_GetValue_B NewlineFixup_one_line or_String_def
      example_world_def example_String_def config_callbacks_def lexer_eval)

subsection \<open>Escaping and evaluating\<close>

lemma EscapeString_Nil [simp]: "EscapeString [] = []"
  by (simp add: EscapeString_def)

lemma EscapeString_Cons:
  "EscapeString (c # s) =
     (if c \<in> set escape_class then BS # c # EscapeString s else c # EscapeString s)"
  by (simp add: EscapeString_def)

lemma EscapeString_eq_Nil [simp]: "EscapeString s = [] \<longleftrightarrow> s = []"
  by (cases s) (simp_all add: EscapeString_Cons)

lemma plain_not_escaped: "plain_char c \<Longrightarrow> c \<notin> set escape_class"
  by (auto simp: plain_char_def escape_class_def)

lemma not_plain_BS: "\<not> plain_char BS"
  by (simp add: plain_char_def)

lemma takeWhile_plain_escaped: "takeWhile plain_char (EscapeString s) = takeWhile plain_char s"
  by (induction s) (auto simp: EscapeString_Cons not_plain_BS dest: plain_not_escaped)

lemma dropWhile_plain_escaped:
  "dropWhile plain_char (EscapeString s) = EscapeString (dropWhile plain_char s)"
  by (induction s) (auto simp: EscapeString_Cons not_plain_BS dest: plain_not_escaped)

lemma not_letter_BS: "\<not> is_letter BS"
  by (simp add: is_letter_def ascii_lowercase_def ascii_uppercase_def)

lemma no_filter_close:
  "dropWhile is_letter (EscapeString s) = d # r \<Longrightarrow> d \<noteq> CHR '')''"
proof (induction s)
  case Nil
  then show ?case by simp
next
  case (Cons c s)
  show ?case
  proof (cases "c \<in> set escape_class")
    case True
    with Cons.prems show ?thesis by (auto simp: EscapeString_Cons not_letter_BS)
  next
    case False
    then have "c \<noteq> CHR '')''" by (auto simp: escape_class_def)
    with False Cons show ?thesis by (auto simp: EscapeString_Cons split: if_splits)
  qed
qed

lemma re_filter_escaped: "re_filter (c # EscapeString s) = None"
  using no_filter_close [of s]
  by (auto simp: re_filter_def split: list.splits)

lemma re_escape_other: "c \<noteq> BS \<Longrightarrow> re_escape (c # r) = None"
  by (cases r) (simp_all add: re_escape_def)

lemma re_text_other: "c \<noteq> p \<Longrightarrow> re_text (p # ps) (c # r) = None"
  by (simp add: re_text_def)

lemma re_plus_other: "\<not> P c \<Longrightarrow> re_plus P (c # r) = None"
  by (simp add: re_plus_def)

lemma re_plus_Cons:
  "P c \<Longrightarrow> re_plus P (c # r) = Some (c # takeWhile P r, [], dropWhile P r)"
  by (simp add: re_plus_def)

lemma first_match_escape:
  "first_match tokens INITIAL (BS # c # r) =
     Some (Token None re_escape [''Escape''] None, ([BS, c], [c], r))"
  by (simp add: tokens_def Token_def re_escape_def)

lemma first_match_plain:
  assumes "plain_char c"
  shows "first_match tokens INITIAL (c # r) =
     Some (Token None (re_plus plain_char) [''AppendArg''] None,
           (c # takeWhile plain_char r, [], dropWhile plain_char r))"
proof -
  from assms have ne: "c \<noteq> BS" "c \<noteq> CHR ''%''" "c \<noteq> CHR '')''" "c \<noteq> CHR ''|''"
    by (auto simp: plain_char_def)
  then have "re_filter (c # r) = None" by (simp add: re_filter_def)
  with ne assms show ?thesis
    by (simp add: tokens_def Token_def re_escape_other re_text_other re_plus_Cons)
qed

lemma first_match_dot:
  assumes "\<not> plain_char c" and "c \<notin> set escape_class" and "re_filter (c # r) = None"
  shows "first_match tokens INITIAL (c # r) =
     Some (Token None re_dot [''AppendArg''] None, ([c], [], r))"
proof -
  from assms(2) have ne: "c \<noteq> BS" "c \<noteq> CHR ''%''" "c \<noteq> CHR '')''"
    by (auto simp: escape_class_def)
  with assms show ?thesis
    by (simp add: tokens_def Token_def re_escape_other re_text_other re_plus_other re_dot_def)
qed

lemma NextToken_AppendArg:
  assumes "first_match tokens (state lx) (buffer lx)
             = Some (Token sr re [''AppendArg''] None, (g0, g1, r))"
    and "stack lx = cur # below"
  shows "NextToken w cb lx = Some (Inr (lx\<lparr>buffer := r, stack := (cur @ g0) # below\<rparr>))"
  using assms
  by (simp add: NextToken_def Token_def run_action_def no_state_def AppendArg_def stack_add_def)

lemma STRING_ESCAPES_escaped:
  "c \<in> set escape_class \<Longrightarrow> STRING_ESCAPES [BS, c] = (if c = BS then Some [BS] else None)"
  by (auto simp: escape_class_def STRING_ESCAPES_def)

lemma NextToken_Escape:
  assumes "first_match tokens (state lx) (buffer lx)
             = Some (Token sr re [''Escape''] None, ([BS, c], g1, r))"
    and "stack lx = cur # below" and "c \<in> set escape_class"
  shows "NextToken w cb lx = Some (Inr (lx\<lparr>buffer := r, stack := (cur @ [c]) # below\<rparr>))"
  using assms(1,2)
  by (simp add: NextToken_def Token_def run_action_def no_state_def Escape_def stack_add_def
      STRING_ESCAPES_escaped [OF assms(3)])

lemma NextToken_escaped:
  assumes st: "state lx = INITIAL" and sk: "stack lx = cur # below"
    and buf: "buffer lx = EscapeString s" and ne: "s \<noteq> []"
  shows "\<exists>t s'. s = t @ s' \<and> t \<noteq> [] \<and>
     NextToken w cb lx
       = Some (Inr (lx\<lparr>buffer := EscapeString s', stack := (cur @ t) # below\<rparr>))"
proof -
  from ne obtain c r where s: "s = c # r" by (cases s) auto
  show ?thesis
  proof (cases "c \<in> set escape_class")
    case True
    then have "buffer lx = BS # c # EscapeString r"
      by (simp add: buf s EscapeString_Cons)
    then have "first_match tokens (state lx) (buffer lx)
        = Some (Token None re_escape [''Escape''] None, ([BS, c], [c], EscapeString r))"
      by (simp add: st first_match_escape)
    from NextToken_Escape [OF this sk True]
    have "NextToken w cb lx
        = Some (Inr (lx\<lparr>buffer := EscapeString r, stack := (cur @ [c]) # below\<rparr>))" .
    with s show ?thesis by (intro exI [of _ "[c]"] exI [of _ r]) simp
  next
    case False
    then have b: "buffer lx = c # EscapeString r"
      by (simp add: buf s EscapeString_Cons)
    show ?thesis
    proof (cases "plain_char c")
      case True
      let ?t = "c # takeWhile plain_char r"
      let ?s' = "dropWhile plain_char r"
      have "first_match tokens (state lx) (buffer lx)
          = Some (Token None (re_plus plain_char) [''AppendArg''] None,
                  (?t, [], EscapeString ?s'))"
        by (simp add: st b first_match_plain [OF True] takeWhile_plain_escaped
            dropWhile_plain_escaped)
      from NextToken_AppendArg [OF this sk]
      have "NextToken w cb lx
          = Some (Inr (lx\<lparr>buffer := EscapeString ?s', stack := (cur @ ?t) # below\<rparr>))" .
      moreover have "s = ?t @ ?s'" by (simp add: s)
      ultimately show ?thesis by (intro exI [of _ ?t] exI [of _ ?s']) simp
    next
      case np: False
      have "first_match tokens (state lx) (buffer lx)
          = Some (Token None re_dot [''AppendArg''] None, ([c], [], EscapeString r))"
        by (simp add: st b first_match_dot [OF np False re_filter_escaped])
      from NextToken_AppendArg [OF this sk]
      have "NextToken w cb lx
          = Some (Inr (lx\<lparr>buffer := EscapeString r, stack := (cur @ [c]) # below\<rparr>))" .
      with s show ?thesis by (intro exI [of _ "[c]"] exI [of _ r]) simp
    qed
  qed
qed

lemma Close_escaped:
  "state lx = INITIAL \<Longrightarrow> stack lx = cur # below \<Longrightarrow> buffer lx = EscapeString s \<Longrightarrow>
   s \<noteq> [] \<Longrightarrow>
   Close w cb lx = Some (Inr (lx\<lparr>buffer := [], stack := (cur @ s) # below\<rparr>))"
proof (induction "length s" arbitrary: s lx cur rule: less_induct)
  case less
  from NextToken_escaped [OF less.prems(1-4), of w cb]
  obtain t s' where s: "s = t @ s'" and t: "t \<noteq> []" and
    nt: "NextToken w cb lx
        = Some (Inr (lx\<lparr>buffer := EscapeString s', stack := (cur @ t) # below\<rparr>))"
    by blast
  let ?lx' = "lx\<lparr>buffer := EscapeString s', stack := (cur @ t) # below\<rparr>"
  show ?case
  proof (cases "s' = []")
    case True
    with nt s show ?thesis by (subst Close.simps) simp
  next
    case False
    have len: "length s' < length s" using s t by simp
    have "Close w cb ?lx' = Some (Inr (?lx'\<lparr>buffer := [], stack := ((cur @ t) @ s') # below\<rparr>))"
      by (rule less.hyps [OF len _ _ _ False]) (simp_all add: less.prems)
    with nt s False show ?thesis by (subst Close.simps) simp
  qed
qed

lemma Close_empty:
  "state lx = INITIAL \<Longrightarrow> buffer lx = [] \<Longrightarrow> Close w cb lx = Some (Inr lx)"
  by (subst Close.simps)
     (simp add: NextToken_def tokens_def Token_def re_escape_def re_text_def re_plus_def
        re_filter_def re_dot_def re_empty_def)

text \<open>
  C9: evaluating \<^verbatim>\<open>EscapeString(s)\<close> gives \<open>s\<close> back, for every string \<open>s\<close> and whatever
  the configuration holds: no parameter is looked up and no filter runs. So
  \<^verbatim>\<open>InterpolateValue\<close> of the escaped string is \<^verbatim>\<open>FromString\<close> of \<open>s\<close>.
\<close>

theorem EscapeString_roundtrip:
  "Parse w cb (StringInterpolator (EscapeString s) ds) = Some (Inr s)
   \<and> InterpolateValue (Suc n) w c (PStr (EscapeString s)) type_info_obj ds
       = Some (FromString type_info_obj s)"
proof -
  have p: "Parse w cb (StringInterpolator (EscapeString s) ds) = Some (Inr s)" for cb
  proof (cases "s = []")
    case True
    then show ?thesis
      by (simp add: Parse_def Close_empty StringInterpolator_def)
  next
    case False
    have "Close w cb (StringInterpolator (EscapeString s) ds)
        = Some (Inr ((StringInterpolator (EscapeString s) ds)\<lparr>buffer := [], stack := ([] @ s) # []\<rparr>))"
      by (rule Close_escaped) (simp_all add: StringInterpolator_def False)
    then show ?thesis by (simp add: Parse_def)
  qed
  then show ?thesis by simp
qed

subsection \<open>Literal regions\<close>

lemma re_literal_escape_other: "c \<noteq> BS \<Longrightarrow> re_literal_escape (c # r) = None"
  by (cases r) (simp_all add: re_literal_escape_def)

lemma first_match_Literal_plus:
  "not_close_brace c \<Longrightarrow> c \<noteq> BS \<Longrightarrow>
   first_match tokens Literal (c # r) =
     Some (Token (Some Literal) (re_plus not_close_brace) [''AppendArg''] None,
           (c # takeWhile not_close_brace r, [], dropWhile not_close_brace r))"
  by (simp add: tokens_def Token_def re_literal_escape_other re_escape_other re_text_other
      re_plus_Cons not_close_brace_def)

lemma Literal_verbatim:
  assumes "CHR ''}'' \<notin> set t" and "t \<noteq> [] \<longrightarrow> hd t \<noteq> BS"
  shows "Parse w cb (StringInterpolator (''%{'' @ t @ ''}'') ds) = Some (Inr t)"
proof (cases t)
  case Nil
  then show ?thesis by (simp add: lexer_eval)
next
  case (Cons c r)
  with assms have c: "not_close_brace c" "c \<noteq> BS" and r: "\<forall>x\<in>set r. not_close_brace x"
    by (auto simp: not_close_brace_def)
  from r have tw: "takeWhile not_close_brace (r @ ''}'') = r"
    and dw: "dropWhile not_close_brace (r @ ''}'') = ''}''"
    by (simp_all add: takeWhile_append2 dropWhile_append2 not_close_brace_def)
  show ?thesis
    unfolding Cons
    apply (simp add: Parse_def StringInterpolator_def)
    apply (subst Close.simps)
    apply (simp add: NextToken_def tokens_def Token_def re_escape_def re_text_def
        run_action_def no_state_def StartExpression_def PushState_def)
    apply (subst Close.simps)
    apply (simp add: NextToken_def first_match_Literal_plus [OF c] tw dw Token_def
        run_action_def no_state_def AppendArg_def stack_add_def)
    apply (subst Close.simps)
    apply (simp add: NextToken_def tokens_def Token_def re_literal_escape_def re_escape_def
        re_text_def run_action_def no_state_def EndLiteralExpression_def PopState_def
        stack_add_def)
    done
qed

text \<open>
  C6 on the code. The text of a literal region is taken as it is, with no expansion
  inside, and \<^verbatim>\<open>\}\<close> is an escaped brace at the start of the region. After other text
  of the region it is not: \<^verbatim>\<open>[^}]+\<close> has taken the backslash with that text, the brace
  closes the region, and \<^verbatim>\<open>%{a\}b}\<close> evaluates to \<^verbatim>\<open>a\b}\<close>.
\<close>

theorem Literal_region_examples:
  "Parse w cb (StringInterpolator ''%{a%(b)c}'' ds) = Some (Inr ''a%(b)c'')
   \<and> Parse w cb (StringInterpolator (''%{'' @ [BS] @ ''}b}'') ds) = Some (Inr ''}b'')
   \<and> Parse w cb (StringInterpolator (''%{a'' @ [BS] @ ''}b}'') ds)
       = Some (Inr (''a'' @ [BS] @ ''b}''))"
  by (simp add: lexer_eval)

subsection \<open>The file filter\<close>




subsection \<open>A reference to a missing parameter\<close>

lemma InterpolateValue_None: "InterpolateValue n w c PNone ti ds = Some (Inr PNone)"
  by (cases n) simp_all

lemma Get_missing:
  "environment c name = None \<Longrightarrow> priv_GetSectionName name = Inr (sec, key) \<Longrightarrow>
   priv_FindTypeInfo c (PStr sec) key = Some (Inr found) \<Longrightarrow>
   priv_GetValue c (PStr sec) key = Some (Inr PNone) \<Longrightarrow>
   Get n w c name False True = Some (Inr PNone)"
  by (simp add: Get_def Get_with_def NewlineFixup_def InterpolateValue_None)

text \<open>
  C7: an expansion that closes without a filter, on a parameter for which
  \<^verbatim>\<open>_GetValue\<close> finds no value (and which is no flat key of the environment), resolves
  to the empty string: \<^verbatim>\<open>Get\<close> returns \<^verbatim>\<open>None\<close>, no error is raised, and the enclosing
  accumulator is left as it was. The descriptor that applies renders the empty string
  as the empty string, as a string codec does.
\<close>

theorem ExpandArg_missing_parameter:
  assumes st: "stack lx = popped # cur # below"
    and nm: "parameter_name =
      (if CHR ''.'' \<notin> set popped then qualify (default_section lx) popped else popped)"
    and sp: "priv_GetSectionName parameter_name = Inr (sec, key)"
    and env: "environment c parameter_name = None"
    and ti: "priv_FindTypeInfo c (PStr sec) key = Some (Inr found)"
    and gv: "priv_GetValue c (PStr sec) key = Some (Inr PNone)"
    and ts: "ToString (or_String w found) (PStr []) = Inr []"
  shows "Get n w c parameter_name False True = Some (Inr PNone)
    \<and> ExpandArg w (config_callbacks (InterpolateValue n w c) w c) lx
        = Some (Inr (lx\<lparr>stack := cur # below\<rparr>))"
proof
  show g: "Get n w c parameter_name False True = Some (Inr PNone)"
    using env sp ti gv by (rule Get_missing)
  have cg: "config_getitem (config_callbacks (InterpolateValue n w c) w c) parameter_name
      = Some (Inr PNone)"
    using g by (simp add: config_callbacks_def Get_def)
  have cf: "config_FindTypeInfo (config_callbacks (InterpolateValue n w c) w c) parameter_name
      = Some (Inr found)"
    using sp ti by (simp add: config_callbacks_def FindTypeInfo_def)
  show "ExpandArg w (config_callbacks (InterpolateValue n w c) w c) lx
        = Some (Inr (lx\<lparr>stack := cur # below\<rparr>))"
  proof (cases "CHR ''.'' \<in> set popped")
    case True
    with cg cf ts nm show ?thesis
      by (simp add: ExpandArg_def Let_def st stack_add_def)
  next
    case False
    with cg cf ts nm show ?thesis
      by (simp add: ExpandArg_def Let_def st stack_add_def)
  qed
qed

lemma example_missing:
  "priv_FindTypeInfo example_config (PStr ''Nope'') ''x'' = Some (Inr None)"
  "priv_GetValue example_config (PStr ''Nope'') ''x'' = Some (Inr PNone)"
proof -
  show "priv_FindTypeInfo example_config (PStr ''Nope'') ''x'' = Some (Inr None)"
    by (subst priv_FindTypeInfo.simps) (simp add: find_section_def example_config_def)
  have s: "stored_value example_config (PStr ''Nope'') k = Inr PNone" for k
    by (simp add: stored_value_def raw_layer_def environment_layer_def defaults_layer_def
        dict_get_def example_config_def)
  have "priv_GetValue example_config (PStr ''Nope'') ''@inherit_from_section'' = Some (Inr PNone)"
    by (simp add: priv_GetValue_sentinel s)
  with s show "priv_GetValue example_config (PStr ''Nope'') ''x'' = Some (Inr PNone)"
    by (rule priv_GetValue_no_parent)
qed

theorem ExpandArg_missing_parameter_witness:
  "ExpandArg example_world
      (config_callbacks (InterpolateValue 0 example_world example_config)
         example_world example_config) example_lexer
     = Some (Inr (example_lexer\<lparr>stack := [''a'']\<rparr>))
   \<and> Get (Suc 0) example_world example_config ''B.ref'' False True = Some (Inr (PStr ''ab''))"
proof -
  have st: "stack example_lexer = ''Nope.x'' # ''a'' # []"
    by (simp add: example_lexer_def)
  have nm: "''Nope.x'' = (if CHR ''.'' \<notin> set ''Nope.x''
      then qualify (default_section example_lexer) ''Nope.x'' else ''Nope.x'')"
    by simp
  have sp: "priv_GetSectionName ''Nope.x'' = Inr (''Nope'', ''x'')"
    by (simp add: priv_GetSectionName_def)
  have env: "environment example_config ''Nope.x'' = None"
    by (simp add: example_environment)
  have ts: "ToString (or_String example_world None) (PStr []) = Inr []"
    by (simp add: or_String_def example_world_def example_String_def)
  note E = ExpandArg_missing_parameter [OF st nm sp env example_missing ts]
  let ?cb = "config_callbacks (InterpolateValue 0 example_world example_config)
      example_world example_config"
  have cg: "config_getitem ?cb ''Nope.x'' = Some (Inr PNone)"
    using E [of 0] by (simp add: config_callbacks_def Get_def)
  have cf: "config_FindTypeInfo ?cb ''Nope.x'' = Some (Inr None)"
    by (simp add: config_callbacks_def FindTypeInfo_def sp example_missing)
  have parse: "Parse example_world ?cb (StringInterpolator ''a%(Nope.x)b'' (Some ''B''))
      = Some (Inr ''ab'')"
    by (simp add: lexer_eval cg cf ts)
  have fs: "FromString (or_String example_world None) ''ab'' = Inr (PStr ''ab'')"
    by (simp add: or_String_def example_world_def example_String_def)
  have "Get (Suc 0) example_world example_config ''B.ref'' False True = Some (Inr (PStr ''ab''))"
    by (simp add: Get_def Get_with_def example_environment priv_GetSectionName_def
      example_FindTypeInfo_B example_GetValue_B NewlineFixup_one_line parse fs)
  with E [of 0] show ?thesis by simp
qed

subsection \<open>Get and the environment\<close>

text \<open>
  C10: when \<open>environ\<close> is true and the full name is a key of the environment, \<^verbatim>\<open>Get\<close>
  returns the stored value as it is: whatever the interpolation function, the
  descriptors and \<open>verify\<close> are, and with no fuel for an interpolation.
\<close>

theorem Get_environment_first:
  "environ \<Longrightarrow> environment c name = Some v \<Longrightarrow>
   Get_with interpolate w c name verify environ = Some (Inr v)
   \<and> Get fuel w c name verify environ = Some (Inr v)"
  by (simp add: Get_def Get_with_def)

theorem Get_environment_first_witness:
  "Get 0 example_world example_config ''Flat.name'' True True = Some (Inr (PStr ''%(x''))"
proof -
  have "environment example_config ''Flat.name'' = Some (PStr ''%(x'')"
    by (simp add: example_config_def)
  from Get_environment_first [OF TrueI this] show ?thesis by simp
qed

end
